theory Spec2Isabelle
  imports Main "HOL-Library.Word"
begin

section \<open>JavaScript strings and numbers\<close>

text \<open>
  A JavaScript string is a sequence of 16-bit code units. File names, file contents and
  the output of git all reach the dashboard as such strings. \<open>js\<close> writes an ASCII
  literal as a string of code units.
\<close>

type_synonym char16 = "16 word"
type_synonym jsstring = "char16 list"

definition js :: "string \<Rightarrow> jsstring" where
  "js s = map (\<lambda>c. of_char c) s"

text \<open>
  The result of \<open>parseInt\<close>: NaN, or the number denoted by the digits read. A number
  is modelled by the integer it denotes; JavaScript holds it as a double, which is that
  integer itself up to \<open>2^53\<close> in magnitude.
\<close>

datatype number = NaN | Num int

text \<open>\<open>\d\<close> in a regular expression: the ASCII digits only.\<close>

definition isDigit :: "char16 \<Rightarrow> bool" where
  "isDigit c = (0x30 \<le> c \<and> c \<le> 0x39)"

text \<open>
  The line terminators (LF, CR, LS, PS) and the white space of ECMAScript: what
  \<open>String.prototype.trim\<close> removes, what \<open>\s\<close> matches and what \<open>parseInt\<close>
  skips at the start of its argument.
\<close>

definition isLineTerminator :: "char16 \<Rightarrow> bool" where
  "isLineTerminator c = (c = 0x0A \<or> c = 0x0D \<or> c = 0x2028 \<or> c = 0x2029)"

definition isWhiteSpace :: "char16 \<Rightarrow> bool" where
  "isWhiteSpace c =
     (c = 0x09 \<or> c = 0x0B \<or> c = 0x0C \<or> c = 0x20 \<or> c = 0xA0 \<or> c = 0x1680
      \<or> (0x2000 \<le> c \<and> c \<le> 0x200A) \<or> c = 0x202F \<or> c = 0x205F \<or> c = 0x3000
      \<or> c = 0xFEFF \<or> isLineTerminator c)"

definition trim :: "jsstring \<Rightarrow> jsstring" where
  "trim s = rev (dropWhile isWhiteSpace (rev (dropWhile isWhiteSpace s)))"

text \<open>
  \<open>s.split(c)\<close> for a one-character separator: the pieces between the separators,
  empty pieces included; the empty string gives one empty piece.
\<close>

fun split_on :: "'a \<Rightarrow> 'a list \<Rightarrow> 'a list list" where
  "split_on c [] = [[]]"
| "split_on c (x # xs) =
     (if x = c then [] # split_on c xs
      else (case split_on c xs of
              [] \<Rightarrow> [[x]]
            | p # ps \<Rightarrow> (x # p) # ps))"

text \<open>An array index that may be out of range: \<open>undefined\<close> is \<open>None\<close>.\<close>

fun nth_opt :: "'a list \<Rightarrow> nat \<Rightarrow> 'a option" where
  "nth_opt [] n = None"
| "nth_opt (x # xs) 0 = Some x"
| "nth_opt (x # xs) (Suc n) = nth_opt xs n"

text \<open>\<open>s.includes(p)\<close>: \<open>p\<close> occurs in \<open>s\<close> as a contiguous run.\<close>

fun strip_prefix :: "'a list \<Rightarrow> 'a list \<Rightarrow> 'a list option" where
  "strip_prefix [] s = Some s"
| "strip_prefix (p # ps) [] = None"
| "strip_prefix (p # ps) (c # cs) = (if p = c then strip_prefix ps cs else None)"

fun js_includes :: "'a list \<Rightarrow> 'a list \<Rightarrow> bool" where
  "js_includes [] p = (p = [])"
| "js_includes (c # cs) p = (strip_prefix p (c # cs) \<noteq> None \<or> js_includes cs p)"

text \<open>
  \<open>parseInt(s, 10)\<close>: leading white space is skipped, one sign is read, then the
  longest run of decimal digits; with no digit the result is NaN. Whatever follows the
  digits is ignored. (With the radix given as 10 no \<open>0x\<close> prefix is recognised.)
\<close>

definition digit_val :: "char16 \<Rightarrow> int" where
  "digit_val c = uint c - 48"

definition digits_val :: "jsstring \<Rightarrow> int" where
  "digits_val ds = foldl (\<lambda>n c. 10 * n + digit_val c) 0 ds"

definition parseInt10 :: "jsstring \<Rightarrow> number" where
  "parseInt10 s =
     (let t = dropWhile isWhiteSpace s;
          neg = (case t of [] \<Rightarrow> False | c # _ \<Rightarrow> c = 0x2D);
          u = (case t of [] \<Rightarrow> [] | c # cs \<Rightarrow> if c = 0x2B \<or> c = 0x2D then cs else t);
          ds = takeWhile isDigit u
      in if ds = [] then NaN
         else Num (if neg then - digits_val ds else digits_val ds))"

section \<open>The regular expressions of the watcher\<close>

text \<open>
  \<open>s.match(re)\<close> without the \<open>g\<close> flag returns the leftmost match: the pattern is
  tried at position 0, then 1, and so on. \<open>search m s\<close> does that for a matcher \<open>m\<close>
  anchored at the start of its argument.
\<close>

fun search :: "('a list \<Rightarrow> 'b option) \<Rightarrow> 'a list \<Rightarrow> 'b option" where
  "search m [] = m []"
| "search m (c # cs) = (case m (c # cs) of Some r \<Rightarrow> Some r | None \<Rightarrow> search m cs)"

text \<open>
  \<open>\d+\<close>: one digit or more, greedy. In both patterns below the character required
  after \<open>\d+\<close> is not a digit (or nothing is required), so giving a digit back never
  helps and the group is the longest run of digits.
\<close>

definition digits1 :: "jsstring \<Rightarrow> (jsstring \<times> jsstring) option" where
  "digits1 s =
     (let ds = takeWhile isDigit s
      in if ds = [] then None else Some (ds, dropWhile isDigit s))"

text \<open>\<open>/agent-(\d+)-(\d+)/\<close> at the start of \<open>s\<close>: the two groups.\<close>

definition task_re_at :: "jsstring \<Rightarrow> (jsstring \<times> jsstring) option" where
  "task_re_at s =
     (case strip_prefix (js ''agent-'') s of
        None \<Rightarrow> None
      | Some r \<Rightarrow>
          (case digits1 r of
             None \<Rightarrow> None
           | Some (g1, r1) \<Rightarrow>
               (case strip_prefix (js ''-'') r1 of
                  None \<Rightarrow> None
                | Some r2 \<Rightarrow>
                    (case digits1 r2 of
                       None \<Rightarrow> None
                     | Some (g2, r3) \<Rightarrow> Some (g1, g2)))))"

definition task_re :: "jsstring \<Rightarrow> (jsstring \<times> jsstring) option" where
  "task_re f = search task_re_at f"

text \<open>\<open>/agent-(\d+)/\<close> at the start of \<open>s\<close>: the group.\<close>

definition agent_re_at :: "jsstring \<Rightarrow> jsstring option" where
  "agent_re_at s =
     (case strip_prefix (js ''agent-'') s of
        None \<Rightarrow> None
      | Some r \<Rightarrow> (case digits1 r of None \<Rightarrow> None | Some (g1, r1) \<Rightarrow> Some g1))"

definition agent_re :: "jsstring \<Rightarrow> jsstring option" where
  "agent_re a = search agent_re_at a"


section \<open>The repository watcher (watcher.js)\<close>

subsection \<open>Data\<close>

text \<open>
  A commit as \<open>updateCommits\<close> builds it: the first four \<open>|\<close>-separated fields of a
  line of the log. A field the line does not have is \<open>undefined\<close> (\<open>None\<close>).
\<close>

record commit =
  hash :: "jsstring option"
  author :: "jsstring option"
  message :: "jsstring option"
  timeAgo :: "jsstring option"

record task =
  t_file :: jsstring
  agentId :: jsstring
  timestamp :: number
  description :: jsstring

datatype agent_status = Working | Idle

record agent =
  a_id :: jsstring
  a_status :: agent_status
  currentTask :: "jsstring option"
  commitCount :: nat
  taskCount :: nat

datatype module_status = Pending

record spec_module =
  m_name :: jsstring
  m_status :: module_status

text \<open>\<open>this.state\<close>; \<open>agents\<close> is an object used as a dictionary from worker id to status.\<close>

record watcher_state =
  agents :: "jsstring \<rightharpoonup> agent"
  commits :: "commit list"
  currentTasks :: "task list"
  completedTaskCount :: nat
  testResults :: "unit option"
  totalLines :: nat
  totalCommits :: number
  specModules :: "spec_module list"

record watcher =
  lastCommitHash :: "jsstring option"
  state :: watcher_state

text \<open>What the listeners receive: \<open>emit('newCommit', c)\<close> and \<open>emit('state', s)\<close>.\<close>

datatype event = NewCommit commit | State watcher_state

text \<open>
  An entry under \<open>src/\<close> as \<open>readdirSync(dir, {withFileTypes: true})\<close> lists it: a
  directory with its listing, or a file with its content; \<open>None\<close> where listing or
  reading throws.
\<close>

datatype fsentry =
  File jsstring "jsstring option"
| Dir jsstring "fsentry list option"

text \<open>
  What one tick observes of the working copy. Git and the file system are outside the
  program: each field is what the call returns at this tick, \<open>None\<close> where it throws
  (a failing or timed-out git command, a missing directory, an unreadable file).
  \<^item> \<open>git_log\<close>: the standard output of \<open>git log --oneline --format="%H|%an|%s|%cr" -30\<close>;
  \<^item> \<open>git_rev_count\<close>: the standard output of \<open>git rev-list --count HEAD\<close>;
  \<^item> \<open>current_tasks\<close>: the names \<open>readdirSync\<close> lists in \<open>current_tasks/\<close>, each
    with what \<open>readFileSync\<close> returns for it;
  \<^item> \<open>completed_tasks\<close>: the names listed in \<open>completed_tasks/\<close>;
  \<^item> \<open>src_dir\<close>: the listing of \<open>src/\<close>;
  \<^item> \<open>spec_md\<close>: the content of \<open>SPEC.md\<close>.
\<close>

record observation =
  git_log :: "jsstring option"
  git_rev_count :: "jsstring option"
  current_tasks :: "(jsstring \<times> jsstring option) list option"
  completed_tasks :: "jsstring list option"
  src_dir :: "fsentry list option"
  spec_md :: "jsstring option"

subsection \<open>The constructor\<close>

definition initial_state :: watcher_state where
  "initial_state =
     \<lparr>agents = Map.empty, commits = [], currentTasks = [], completedTaskCount = 0,
      testResults = None, totalLines = 0, totalCommits = Num 0, specModules = []\<rparr>"

definition new_watcher :: watcher where
  "new_watcher = \<lparr>lastCommitHash = None, state = initial_state\<rparr>"

subsection \<open>execGit\<close>

text \<open>The trimmed output of the command, or the empty string when it throws.\<close>

definition execGit :: "jsstring option \<Rightarrow> jsstring" where
  "execGit out = (case out of None \<Rightarrow> [] | Some s \<Rightarrow> trim s)"

subsection \<open>updateCommits\<close>

definition parse_commit :: "jsstring \<Rightarrow> commit" where
  "parse_commit line =
     (let fs = split_on 0x7C line
      in \<lparr>hash = nth_opt fs 0, author = nth_opt fs 1,
          message = nth_opt fs 2, timeAgo = nth_opt fs 3\<rparr>)"

definition parse_log :: "jsstring \<Rightarrow> commit list" where
  "parse_log lg = map parse_commit (filter (\<lambda>l. l \<noteq> []) (split_on 0x0A lg))"

text \<open>\<open>commits[0]?.hash\<close> when it is truthy: a non-empty string.\<close>

definition latest_hash :: "commit list \<Rightarrow> jsstring option" where
  "latest_hash cs =
     (case cs of
        [] \<Rightarrow> None
      | c # _ \<Rightarrow> (case hash c of None \<Rightarrow> None | Some h \<Rightarrow> if h = [] then None else Some h))"

definition updateCommits :: "observation \<Rightarrow> watcher \<Rightarrow> event list \<times> watcher" where
  "updateCommits ob w =
     (let lg = execGit (git_log ob)
      in if lg = [] then ([], w)
         else
           let cs = parse_log lg;
               fire = (case latest_hash cs of
                         None \<Rightarrow> False
                       | Some h \<Rightarrow> Some h \<noteq> lastCommitHash w);
               w1 = (if fire then w\<lparr>lastCommitHash := latest_hash cs\<rparr> else w);
               ev = (case cs of [] \<Rightarrow> [] | c # _ \<Rightarrow> if fire then [NewCommit c] else []);
               rc = execGit (git_rev_count ob);
               st = (state w1)\<lparr>commits := cs,
                      totalCommits := parseInt10 (if rc = [] then js ''0'' else rc)\<rparr>
           in (ev, w1\<lparr>state := st\<rparr>))"

subsection \<open>updateCurrentTasks and updateCompletedTasks\<close>

definition gitkeep :: jsstring where
  "gitkeep = js ''.gitkeep''"

definition make_task :: "jsstring \<Rightarrow> jsstring \<Rightarrow> task" where
  "make_task f content =
     (let m = task_re f
      in \<lparr>t_file = f,
          agentId = (case m of Some (g1, g2) \<Rightarrow> g1 | None \<Rightarrow> js ''unknown''),
          timestamp = (case m of Some (g1, g2) \<Rightarrow> parseInt10 g2 | None \<Rightarrow> Num 0),
          description = trim content\<rparr>)"

text \<open>
  The files are read in the order of the listing; the first read that throws ends the
  \<open>map\<close> and the \<open>catch\<close> leaves an empty list.
\<close>

fun read_tasks :: "(jsstring \<times> jsstring option) list \<Rightarrow> task list option" where
  "read_tasks [] = Some []"
| "read_tasks ((f, None) # es) = None"
| "read_tasks ((f, Some content) # es) =
     (case read_tasks es of None \<Rightarrow> None | Some ts \<Rightarrow> Some (make_task f content # ts))"

definition updateCurrentTasks :: "observation \<Rightarrow> watcher \<Rightarrow> watcher" where
  "updateCurrentTasks ob w =
     (let ts = (case current_tasks ob of
                  None \<Rightarrow> []
                | Some es \<Rightarrow>
                    (case read_tasks (filter (\<lambda>e. fst e \<noteq> gitkeep) es) of
                       None \<Rightarrow> []
                     | Some ts \<Rightarrow> ts))
      in w\<lparr>state := (state w)\<lparr>currentTasks := ts\<rparr>\<rparr>)"

definition updateCompletedTasks :: "observation \<Rightarrow> watcher \<Rightarrow> watcher" where
  "updateCompletedTasks ob w =
     (let n = (case completed_tasks ob of
                 None \<Rightarrow> 0
               | Some fs \<Rightarrow> length (filter (\<lambda>f. f \<noteq> gitkeep) fs))
      in w\<lparr>state := (state w)\<lparr>completedTaskCount := n\<rparr>\<rparr>)"

subsection \<open>updateCodeStats\<close>

text \<open>\<open>/\.(js|html|css)$/\<close>: the name ends in one of the three extensions.\<close>

definition ends_with :: "'a list \<Rightarrow> 'a list \<Rightarrow> bool" where
  "ends_with s suf = (strip_prefix (rev suf) (rev s) \<noteq> None)"

definition code_file :: "jsstring \<Rightarrow> bool" where
  "code_file n = (ends_with n (js ''.js'') \<or> ends_with n (js ''.html'') \<or> ends_with n (js ''.css''))"

text \<open>
  \<open>walkDir\<close>: the lines of the code files below a directory, \<open>None\<close> when a listing
  or a read throws (the exception leaves every enclosing \<open>walkDir\<close>).
\<close>

fun walkDir :: "fsentry list \<Rightarrow> nat option"
  and walkEntry :: "fsentry \<Rightarrow> nat option" where
  "walkDir [] = Some 0"
| "walkDir (e # es) =
     (case walkEntry e of
        None \<Rightarrow> None
      | Some n \<Rightarrow> (case walkDir es of None \<Rightarrow> None | Some k \<Rightarrow> Some (n + k)))"
| "walkEntry (Dir n None) = None"
| "walkEntry (Dir n (Some es)) = walkDir es"
| "walkEntry (File n content) =
     (if code_file n
      then (case content of None \<Rightarrow> None | Some c \<Rightarrow> Some (length (split_on 0x0A c)))
      else Some 0)"

definition updateCodeStats :: "observation \<Rightarrow> watcher \<Rightarrow> watcher" where
  "updateCodeStats ob w =
     (let n = (case src_dir ob of
                 None \<Rightarrow> 0
               | Some es \<Rightarrow> (case walkDir es of None \<Rightarrow> 0 | Some k \<Rightarrow> k))
      in w\<lparr>state := (state w)\<lparr>totalLines := n\<rparr>\<rparr>)"

subsection \<open>updateSpecModules\<close>

text \<open>
  \<open>/^###?\s+\d+\.\s+\*\*(.+?)\*\*/gm\<close>. Each greedy part is followed by a character
  it cannot itself match, so the match is deterministic up to the group. The group is
  lazy: the shortest non-empty run of characters other than line terminators that is
  followed by \<open>**\<close>.
\<close>

definition spaces1 :: "jsstring \<Rightarrow> jsstring option" where
  "spaces1 s = (if takeWhile isWhiteSpace s = [] then None else Some (dropWhile isWhiteSpace s))"

fun name_until :: "jsstring \<Rightarrow> (jsstring \<times> jsstring) option" where
  "name_until [] = None"
| "name_until (c # cs) =
     (if isLineTerminator c then None
      else (case strip_prefix (js ''**'') cs of
              Some r \<Rightarrow> Some ([c], r)
            | None \<Rightarrow>
                (case name_until cs of
                   None \<Rightarrow> None
                 | Some (n, r) \<Rightarrow> Some (c # n, r))))"

text \<open>The pattern at a line start: the group and what follows the match.\<close>

definition heading_re_at :: "jsstring \<Rightarrow> (jsstring \<times> jsstring) option" where
  "heading_re_at s =
     (case strip_prefix (js ''##'') s of
        None \<Rightarrow> None
      | Some r \<Rightarrow>
          (case spaces1 (case r of [] \<Rightarrow> [] | c # cs \<Rightarrow> if c = 0x23 then cs else r) of
             None \<Rightarrow> None
           | Some r1 \<Rightarrow>
               (case digits1 r1 of
                  None \<Rightarrow> None
                | Some (ds, r2) \<Rightarrow>
                    (case strip_prefix (js ''.'') r2 of
                       None \<Rightarrow> None
                     | Some r3 \<Rightarrow>
                         (case spaces1 r3 of
                            None \<Rightarrow> None
                          | Some r4 \<Rightarrow>
                              (case strip_prefix (js ''**'') r4 of
                                 None \<Rightarrow> None
                               | Some r5 \<Rightarrow> name_until r5))))))"

text \<open>
  The \<open>exec\<close> loop: the pattern is tried at each line start (the start of the text,
  or after a line terminator) from \<open>lastIndex\<close> on; after a match the search resumes
  where the match ended. \<open>bol\<close> says whether the position is a line start.
\<close>

function scan_modules :: "bool \<Rightarrow> jsstring \<Rightarrow> jsstring list" where
  "scan_modules bol [] = []"
| "scan_modules bol (c # cs) =
     (case (if bol then heading_re_at (c # cs) else None) of
        Some (n, r) \<Rightarrow> n # scan_modules False r
      | None \<Rightarrow> scan_modules (isLineTerminator c) cs)"
  by pat_completeness auto
termination
proof (relation "measure (\<lambda>(b, s). length s)")
  show "wf (measure (\<lambda>(b, s). length s))" by simp
next
  fix bol :: bool and c :: char16 and cs :: jsstring
  show "((isLineTerminator c, cs), (bol, c # cs)) \<in> measure (\<lambda>(b, s). length s)" by simp
next
  fix bol :: bool and c :: char16 and cs x n r
  assume m: "(if bol then heading_re_at (c # cs) else None) = Some x" and x: "(n, r) = x"
  have strip: "length t + length p = length s" if "strip_prefix p s = Some t"
    for p s t :: jsstring
    using that by (induction p s rule: strip_prefix.induct) (auto split: if_splits)
  have until: "length t < length s" if "name_until s = Some (k, t)" for s k t
    using that
  proof (induction s arbitrary: k t)
    case Nil
    then show ?case by simp
  next
    case (Cons d ds)
    then show ?case
      by (auto split: if_splits option.splits dest: strip)
  qed
  have spaces: "length t \<le> length s" if "spaces1 s = Some t" for s t
    using that by (auto simp: spaces1_def length_dropWhile_le split: if_splits)
  have digits: "length t \<le> length s" if "digits1 s = Some (ds, t)" for s ds t
    using that by (auto simp: digits1_def Let_def length_dropWhile_le split: if_splits)
  have hashes: "length (case t of [] \<Rightarrow> [] | d # ds \<Rightarrow> if d = (0x23 :: char16) then ds else t)
      \<le> length t" for t
    by (cases t) auto
  from m x have "heading_re_at (c # cs) = Some (n, r)"
    by (auto split: if_splits)
  then obtain r0 r1 ds r2 r3 r4 r5 where
    a: "strip_prefix (js ''##'') (c # cs) = Some r0"
    and b: "spaces1 (case r0 of [] \<Rightarrow> [] | d # ds \<Rightarrow> if d = 0x23 then ds else r0) = Some r1"
    and c: "digits1 r1 = Some (ds, r2)"
    and d: "strip_prefix (js ''.'') r2 = Some r3"
    and e: "spaces1 r3 = Some r4"
    and f: "strip_prefix (js ''**'') r4 = Some r5"
    and g: "name_until r5 = Some (n, r)"
    unfolding heading_re_at_def by (auto split: option.splits)
  have "length r < length r5" using g by (rule until)
  also have "length r5 \<le> length r4" using strip [OF f] by simp
  also have "length r4 \<le> length r3" using e by (rule spaces)
  also have "length r3 \<le> length r2" using strip [OF d] by simp
  also have "length r2 \<le> length r1" using c by (rule digits)
  also have "length r1 \<le> length r0" using spaces [OF b] hashes [of r0] by simp
  also have "length r0 \<le> length (c # cs)" using strip [OF a] by simp
  finally show "((False, r), (bol, c # cs)) \<in> measure (\<lambda>(b, s). length s)" by simp
qed

definition updateSpecModules :: "observation \<Rightarrow> watcher \<Rightarrow> watcher" where
  "updateSpecModules ob w =
     (let ms = (case spec_md ob of
                  None \<Rightarrow> []
                | Some content \<Rightarrow>
                    map (\<lambda>n. \<lparr>m_name = trim n, m_status = Pending\<rparr>) (scan_modules True content))
      in w\<lparr>state := (state w)\<lparr>specModules := ms\<rparr>\<rparr>)"

subsection \<open>updateAgentStatus\<close>

text \<open>The completion marker searched in commit messages, as UTF-16 code units.\<close>

definition done_marker :: jsstring where
  "done_marker = [0xC791, 0xC5C5, 0x20, 0xC644, 0xB8CC]"

text \<open>First loop: every task marks its worker as working on it.\<close>

definition mark_working :: "(jsstring \<rightharpoonup> agent) \<Rightarrow> task \<Rightarrow> (jsstring \<rightharpoonup> agent)" where
  "mark_working ags t =
     (case ags (agentId t) of
        None \<Rightarrow>
          ags(agentId t \<mapsto>
            \<lparr>a_id = agentId t, a_status = Working, currentTask = Some (description t),
             commitCount = 0, taskCount = 0\<rparr>)
      | Some a \<Rightarrow>
          ags(agentId t \<mapsto> a\<lparr>a_status := Working, currentTask := Some (description t)\<rparr>))"

text \<open>Second loop: every commit of the window whose author names a worker is counted.\<close>

definition count_commit ::
  "jsstring set \<Rightarrow> (jsstring \<rightharpoonup> agent) \<Rightarrow> commit \<Rightarrow> (jsstring \<rightharpoonup> agent)" where
  "count_commit active ags c =
     (case (case author c of None \<Rightarrow> None | Some a \<Rightarrow> agent_re a) of
        None \<Rightarrow> ags
      | Some k \<Rightarrow>
          (let a0 = (case ags k of
                       None \<Rightarrow>
                         \<lparr>a_id = k, a_status = (if k \<in> active then Working else Idle),
                          currentTask = None, commitCount = 0, taskCount = 0\<rparr>
                     | Some a \<Rightarrow> a);
               a1 = a0\<lparr>commitCount := commitCount a0 + 1\<rparr>;
               a2 = (if (case message c of None \<Rightarrow> False | Some m \<Rightarrow> js_includes m done_marker)
                     then a1\<lparr>taskCount := taskCount a1 + 1\<rparr> else a1)
           in ags(k \<mapsto> a2)))"

text \<open>Third loop: every known worker without a task is idle.\<close>

definition mark_idle :: "jsstring set \<Rightarrow> (jsstring \<rightharpoonup> agent) \<Rightarrow> (jsstring \<rightharpoonup> agent)" where
  "mark_idle active ags =
     (\<lambda>k. case ags k of
             None \<Rightarrow> None
           | Some a \<Rightarrow> if k \<in> active then Some a
                       else Some (a\<lparr>a_status := Idle, currentTask := None\<rparr>))"

definition updateAgentStatus :: "watcher \<Rightarrow> watcher" where
  "updateAgentStatus w =
     (let st = state w;
          activeAgents = set (map agentId (currentTasks st));
          ags1 = foldl mark_working (agents st) (currentTasks st);
          ags2 = foldl (count_commit activeAgents) ags1 (commits st);
          ags3 = mark_idle activeAgents ags2
      in w\<lparr>state := st\<lparr>agents := ags3\<rparr>\<rparr>)"

subsection \<open>getState and poll\<close>

definition getState :: "watcher \<Rightarrow> watcher_state" where
  "getState w = state w"

text \<open>
  One tick. The \<open>git pull\<close> that opens it goes through \<open>execGit\<close>, which swallows its
  failure, and its output is not used. The listeners are outside the program and taken
  not to throw.
\<close>

definition poll :: "observation \<Rightarrow> watcher \<Rightarrow> event list \<times> watcher" where
  "poll ob w =
     (let (ev, w1) = updateCommits ob w;
          w2 = updateCurrentTasks ob w1;
          w3 = updateCompletedTasks ob w2;
          w4 = updateCodeStats ob w3;
          w5 = updateSpecModules ob w4;
          w6 = updateAgentStatus w5
      in (ev @ [State (getState w6)], w6))"

text \<open>
  \<open>reset(newRepoPath)\<close> stops the timer, clears the last hash and the state and
  starts the watcher again, which polls at once: \<open>ob\<close> is what that poll observes of
  the new repository. (The constructor followed by \<open>start()\<close> is \<open>poll\<close> of
  \<open>new_watcher\<close>.)
\<close>

definition reset :: "observation \<Rightarrow> watcher \<Rightarrow> event list \<times> watcher" where
  "reset ob w = poll ob (w\<lparr>lastCommitHash := None, state := initial_state\<rparr>)"

text \<open>A run of ticks, one observation each; the events of all of them in order.\<close>

fun polls :: "observation list \<Rightarrow> watcher \<Rightarrow> event list \<times> watcher" where
  "polls [] w = ([], w)"
| "polls (ob # obs) w =
     (let (ev, w1) = poll ob w; (evs, w2) = polls obs w1 in (ev @ evs, w2))"

subsection \<open>Notions used in the statements about the watcher\<close>

text \<open>
  The task records a tick derives depend on the observation only: \<open>updateCurrentTasks\<close>
  overwrites \<open>currentTasks\<close>.
\<close>

definition tick_tasks :: "observation \<Rightarrow> task list" where
  "tick_tasks ob = currentTasks (state (updateCurrentTasks ob new_watcher))"

text \<open>
  The worker a commit is attributed to by the second loop of \<open>updateAgentStatus\<close>, and
  whether its message carries the completion marker.
\<close>

definition attributed :: "commit \<Rightarrow> jsstring option" where
  "attributed c = (case author c of None \<Rightarrow> None | Some a \<Rightarrow> agent_re a)"

definition completes :: "commit \<Rightarrow> bool" where
  "completes c = (case message c of None \<Rightarrow> False | Some m \<Rightarrow> js_includes m done_marker)"

text \<open>The counters of a worker, 0 for a worker the dictionary does not hold.\<close>

definition commit_count_of :: "(jsstring \<rightharpoonup> agent) \<Rightarrow> jsstring \<Rightarrow> nat" where
  "commit_count_of ags k = (case ags k of None \<Rightarrow> 0 | Some a \<Rightarrow> commitCount a)"

definition task_count_of :: "(jsstring \<rightharpoonup> agent) \<Rightarrow> jsstring \<Rightarrow> nat" where
  "task_count_of ags k = (case ags k of None \<Rightarrow> 0 | Some a \<Rightarrow> taskCount a)"

text \<open>
  The head hash a tick observes: the hash of the first commit of the log, when the log
  is not empty and the hash is a non-empty string (the test \<open>latestHash &&\<close>).
\<close>

definition observed_head :: "observation \<Rightarrow> jsstring option" where
  "observed_head ob =
     (if execGit (git_log ob) = [] then None
      else latest_hash (parse_log (execGit (git_log ob))))"


section \<open>Sessions (session.js)\<close>

datatype session_status =
  Initializing | Scaffolding | GeneratingSpec | LaunchingAgents | Running | Stopped

record log_entry =
  l_time :: int
  l_message :: jsstring

record session =
  s_id :: jsstring
  gameName :: jsstring
  agentCount :: int
  s_status :: session_status
  repoPath :: "jsstring option"
  workDir :: "jsstring option"
  logs :: "log_entry list"
  forgeStep :: int
  forgeSteps :: "jsstring list"
  containerIds :: "jsstring list"
  createdAt :: int

definition forge_step_names :: "jsstring list" where
  "forge_step_names =
     [js ''Checking prerequisites'', js ''Creating bare repository'',
      js ''Scaffolding project'', js ''Generating SPEC.md'', js ''Setting up tests'',
      js ''Initial commit & push'', js ''Launching agents'']"

text \<open>
  The constructor. The id (eight hexadecimal digits of \<open>crypto.randomBytes(4)\<close>) and
  the clock (\<open>Date.now()\<close>) come from outside and are parameters.
\<close>

definition new_session :: "jsstring \<Rightarrow> int \<Rightarrow> jsstring \<Rightarrow> int \<Rightarrow> session" where
  "new_session sid now name n =
     \<lparr>s_id = sid, gameName = name, agentCount = n, s_status = Initializing,
      repoPath = None, workDir = None, logs = [], forgeStep = 0,
      forgeSteps = forge_step_names, containerIds = [], createdAt = now\<rparr>"

definition setStatus :: "session_status \<Rightarrow> session \<Rightarrow> session" where
  "setStatus st s = s\<lparr>s_status := st\<rparr>"

definition setForgeStep :: "int \<Rightarrow> session \<Rightarrow> session" where
  "setForgeStep k s = s\<lparr>forgeStep := k\<rparr>"

text \<open>\<open>addLog\<close>: push, then one \<open>shift\<close> when the list is longer than 500.\<close>

definition addLog :: "int \<Rightarrow> jsstring \<Rightarrow> session \<Rightarrow> log_entry \<times> session" where
  "addLog now msg s =
     (let entry = \<lparr>l_time = now, l_message = msg\<rparr>;
          pushed = logs s @ [entry];
          kept = (if length pushed > 500 then tl pushed else pushed)
      in (entry, s\<lparr>logs := kept\<rparr>))"


text \<open>The operations of the class \<open>Session\<close>, for statements about all of them.\<close>

datatype session_op =
  SetStatus session_status | SetForgeStep int | AddLog int jsstring | ToJSON

fun apply_session_op :: "session \<Rightarrow> session_op \<Rightarrow> session" where
  "apply_session_op s (SetStatus st) = setStatus st s"
| "apply_session_op s (SetForgeStep k) = setForgeStep k s"
| "apply_session_op s (AddLog now msg) = snd (addLog now msg s)"
| "apply_session_op s ToJSON = s"

subsection \<open>SessionManager\<close>

text \<open>
  \<open>sessions\<close> is the \<open>Map\<close> from id to session object. A session object is reached
  through its id: \<open>with_session\<close> is a method call on the object the map holds under
  that id, by whoever holds a reference to it (the forge runner of \<open>server.js\<close> keeps
  the session it was started with).
\<close>

record manager =
  sessions :: "jsstring \<rightharpoonup> session"
  activeSessionId :: "jsstring option"

datatype error = SessionAlreadyActive jsstring jsstring

definition new_manager :: manager where
  "new_manager = \<lparr>sessions = Map.empty, activeSessionId = None\<rparr>"

text \<open>
  \<open>this.activeSessionId\<close> when it is truthy, looked up in the map, when the session
  is there and not stopped: the test of \<open>create\<close> and of \<open>getActive\<close>.
\<close>

definition getActive :: "manager \<Rightarrow> session option" where
  "getActive m =
     (case activeSessionId m of
        None \<Rightarrow> None
      | Some i \<Rightarrow>
          if i = [] then None
          else (case sessions m i of
                  None \<Rightarrow> None
                | Some s \<Rightarrow> if s_status s = Stopped then None else Some s))"

definition register :: "session \<Rightarrow> manager \<Rightarrow> manager" where
  "register session m =
     m\<lparr>sessions := (sessions m)(s_id session \<mapsto> session),
       activeSessionId := Some (s_id session)\<rparr>"

definition create ::
  "jsstring \<Rightarrow> int \<Rightarrow> jsstring \<Rightarrow> int \<Rightarrow> manager \<Rightarrow> (error + session) \<times> manager" where
  "create sid now name n m =
     (let existing = (case activeSessionId m of
                        None \<Rightarrow> None
                      | Some i \<Rightarrow> if i = [] then None else sessions m i);
          session = new_session sid now name n;
          created = (Inr session, register session m)
      in case existing of
           None \<Rightarrow> created
         | Some e \<Rightarrow>
             if s_status e \<noteq> Stopped
             then (Inl (SessionAlreadyActive (gameName e) (s_id e)), m)
             else created)"

definition get :: "manager \<Rightarrow> jsstring \<Rightarrow> session option" where
  "get m i = sessions m i"

text \<open>\<open>stop(id)\<close>: \<open>id || this.activeSessionId\<close> selects the session.\<close>

definition stop :: "jsstring option \<Rightarrow> manager \<Rightarrow> session option \<times> manager" where
  "stop i m =
     (let key = (case i of
                   None \<Rightarrow> activeSessionId m
                 | Some j \<Rightarrow> if j = [] then activeSessionId m else Some j)
      in case key of
           None \<Rightarrow> (None, m)
         | Some k \<Rightarrow>
             (case sessions m k of
                None \<Rightarrow> (None, m)
              | Some s \<Rightarrow>
                  (Some (setStatus Stopped s),
                   m\<lparr>sessions := (sessions m)(k \<mapsto> setStatus Stopped s)\<rparr>)))"

definition with_session :: "jsstring \<Rightarrow> (session \<Rightarrow> session) \<Rightarrow> manager \<Rightarrow> manager" where
  "with_session i f m =
     (case sessions m i of
        None \<Rightarrow> m
      | Some s \<Rightarrow> m\<lparr>sessions := (sessions m)(i \<mapsto> f s)\<rparr>)"

section \<open>The session-creation endpoint (server.js)\<close>






section \<open>The worker loop (the agent's shell script)\<close>















section \<open>Concrete inputs\<close>

text \<open>A session whose log buffer is full.\<close>

definition full_session :: session where
  "full_session =
     (new_session (js ''0a1b2c3d'') 0 (js ''pong'') 3)
       \<lparr>logs := replicate 500 \<lparr>l_time = 0, l_message = js ''old''\<rparr>\<rparr>"

text \<open>
  A run of the server that leaves a session that is not stopped beside the active one:
  session \<open>aaaaaaaa\<close> is created and stopped while its forge still runs, session
  \<open>bbbbbbbb\<close> is created, the forge of the first reports a step (the progress callback
  of \<open>runForge\<close> sets its status), and the second session is stopped.
\<close>

definition forge_race :: manager where
  "forge_race =
     snd (stop None
       (with_session (js ''aaaaaaaa'') (setStatus Scaffolding)
         (snd (create (js ''bbbbbbbb'') 2 (js ''pong'') 3
           (snd (stop None
             (snd (create (js ''aaaaaaaa'') 1 (js ''tetris'') 3 new_manager))))))))"

text \<open>A manager whose active session is running.\<close>

definition busy_manager :: manager where
  "busy_manager =
     with_session (js ''aaaaaaaa'') (setStatus Running)
       (snd (create (js ''aaaaaaaa'') 1 (js ''tetris'') 3 new_manager))"


text \<open>Observations: two task records of worker 1, one of worker 2, an empty ledger.\<close>

definition two_tasks :: observation where
  "two_tasks =
     \<lparr>git_log = None, git_rev_count = None,
      current_tasks = Some [(js ''agent-1-1700000000000'', Some (js ''implement scoring'')),
                            (js ''agent-1-1700000000500'', Some (js ''draw the board''))],
      completed_tasks = Some [], src_dir = None, spec_md = None\<rparr>"

definition one_task :: observation where
  "one_task =
     \<lparr>git_log = None, git_rev_count = None,
      current_tasks = Some [(js ''agent-2-1700000000000'', Some (js ''implement scoring''))],
      completed_tasks = Some [], src_dir = None, spec_md = None\<rparr>"

definition quiet :: observation where
  "quiet =
     \<lparr>git_log = None, git_rev_count = None, current_tasks = Some [],
      completed_tasks = Some [], src_dir = None, spec_md = None\<rparr>"

text \<open>An observation whose log is one commit of worker 1 that completes a task.\<close>

definition one_commit :: observation where
  "one_commit =
     \<lparr>git_log = Some (js ''c0ffee|agent-1|scoring: '' @ done_marker @ js ''|2 minutes ago''),
      git_rev_count = Some (js ''1''), current_tasks = Some [],
      completed_tasks = Some [], src_dir = None, spec_md = None\<rparr>"







section \<open>Theorems: sessions\<close>

subsection \<open>The log buffer\<close>

lemma addLog_bound:
  "length (logs s) \<le> 500 \<Longrightarrow> length (logs (snd (addLog t msg s))) \<le> 500"
  by (simp add: addLog_def Let_def)

lemma apply_session_op_bound:
  "length (logs s) \<le> 500 \<Longrightarrow> length (logs (apply_session_op s x)) \<le> 500"
  by (cases x) (simp_all add: addLog_bound setStatus_def setForgeStep_def)

lemma session_ops_bound:
  "length (logs s) \<le> 500 \<Longrightarrow> length (logs (foldl apply_session_op s xs)) \<le> 500"
  by (induction xs arbitrary: s) (simp_all add: apply_session_op_bound)

lemma addLog_evicts:
  "length (logs s) = 500 \<Longrightarrow>
     logs (snd (addLog t msg s)) = tl (logs s) @ [\<lparr>l_time = t, l_message = msg\<rparr>]"
  by (cases "logs s") (simp_all add: addLog_def Let_def)

lemma addLog_appends:
  "length (logs s) < 500 \<Longrightarrow>
     logs (snd (addLog t msg s)) = logs s @ [\<lparr>l_time = t, l_message = msg\<rparr>]"
  by (simp add: addLog_def Let_def)

text \<open>
  Claim C8. The log buffer of a session is bounded. Whatever operations of \<open>Session\<close>
  are applied to a new session, in any number and order, its \<open>logs\<close> hold at most 500
  entries; every single operation keeps the bound; \<open>addLog\<close> on a full buffer drops
  the oldest entry and appends the new one, and on a buffer that is not full it only
  appends.
\<close>

theorem session_logs_bounded:
  "length (logs (foldl apply_session_op (new_session sid now name n) xs)) \<le> 500
   \<and> (length (logs s) \<le> 500 \<longrightarrow> length (logs (apply_session_op s x)) \<le> 500)
   \<and> (length (logs s) = 500 \<longrightarrow>
        logs (snd (addLog t msg s)) = tl (logs s) @ [\<lparr>l_time = t, l_message = msg\<rparr>])
   \<and> (length (logs s) < 500 \<longrightarrow>
        logs (snd (addLog t msg s)) = logs s @ [\<lparr>l_time = t, l_message = msg\<rparr>])"
proof -
  have "length (logs (new_session sid now name n)) \<le> 500"
    by (simp add: new_session_def)
  then have "length (logs (foldl apply_session_op (new_session sid now name n) xs)) \<le> 500"
    by (rule session_ops_bound)
  then show ?thesis
    using apply_session_op_bound addLog_evicts addLog_appends by blast
qed

theorem session_logs_bounded_witness:
  "length (logs full_session) = 500
   \<and> length (logs (apply_session_op full_session (AddLog 7 (js ''new'')))) \<le> 500
   \<and> logs (snd (addLog 7 (js ''new'') full_session))
       = replicate 499 \<lparr>l_time = 0, l_message = js ''old''\<rparr>
         @ [\<lparr>l_time = 7, l_message = js ''new''\<rparr>]
   \<and> length (logs (foldl apply_session_op (new_session (js ''0a1b2c3d'') 0 (js ''pong'') 3)
         [AddLog 1 (js ''a''), SetStatus Running, AddLog 2 (js ''b'')])) \<le> 500
   \<and> logs (snd (addLog 7 (js ''new'') (new_session (js ''0a1b2c3d'') 0 (js ''pong'') 3)))
       = [\<lparr>l_time = 7, l_message = js ''new''\<rparr>]"
proof -
  have len: "length (logs full_session) = 500"
    by (simp add: full_session_def)
  have tl: "tl (logs full_session) = replicate 499 \<lparr>l_time = 0, l_message = js ''old''\<rparr>"
    by (simp add: full_session_def tl_replicate)
  have e: "logs (new_session (js ''0a1b2c3d'') 0 (js ''pong'') 3) = []"
    by (simp add: new_session_def)
  show ?thesis
    using len tl e
      session_logs_bounded [of "js ''0a1b2c3d''" 0 "js ''pong''" 3
        "[AddLog 1 (js ''a''), SetStatus Running, AddLog 2 (js ''b'')]"
        full_session "AddLog 7 (js ''new'')" 7 "js ''new''"]
      session_logs_bounded [of "js ''0a1b2c3d''" 0 "js ''pong''" 3 "[]"
        "new_session (js ''0a1b2c3d'') 0 (js ''pong'') 3" ToJSON 7 "js ''new''"]
    by simp
qed

subsection \<open>SessionManager.create\<close>

lemma create_fails_iff:
  "(\<exists>e. fst (create sid now name n m) = Inl e) \<longleftrightarrow> getActive m \<noteq> None"
  by (auto simp: create_def getActive_def Let_def split: option.splits if_splits)

lemma create_conflict_error:
  "getActive m = Some x \<Longrightarrow>
     create sid now name n m = (Inl (SessionAlreadyActive (gameName x) (s_id x)), m)"
  by (auto simp: create_def getActive_def Let_def split: option.splits if_splits)

lemma create_succeeds:
  "getActive m = None \<Longrightarrow>
     create sid now name n m =
       (Inr (new_session sid now name n),
        m\<lparr>sessions := (sessions m)(sid \<mapsto> new_session sid now name n),
          activeSessionId := Some sid\<rparr>)"
  by (auto simp: create_def getActive_def Let_def register_def new_session_def
           split: option.splits if_splits)

lemma create_becomes_active:
  "getActive m = None \<Longrightarrow> sid \<noteq> [] \<Longrightarrow>
     getActive (snd (create sid now name n m)) = Some (new_session sid now name n)"
  by (simp add: create_succeeds) (simp add: getActive_def new_session_def)

text \<open>
  Claim C2, as amended. \<open>create\<close> fails, with the conflict error that names the
  active session, exactly when the session \<open>activeSessionId\<close> names is in the map and
  is not stopped (when \<open>getActive\<close> returns a session); a session that is not stopped
  but is not the active one does not block it. When \<open>create\<close> fails the manager and
  every session in it are as before. When the active session is stopped, or there is
  none, \<open>create\<close> returns a new session with status initializing, stores it under its
  id without touching any other entry, and makes it the active one.
\<close>

theorem create_conflict_iff_active:
  "((\<exists>e. fst (create sid now name n m) = Inl e) \<longleftrightarrow> getActive m \<noteq> None)
   \<and> (getActive m = Some x \<longrightarrow>
        create sid now name n m = (Inl (SessionAlreadyActive (gameName x) (s_id x)), m))
   \<and> (getActive m = None \<longrightarrow>
        fst (create sid now name n m) = Inr (new_session sid now name n)
        \<and> s_status (new_session sid now name n) = Initializing
        \<and> activeSessionId (snd (create sid now name n m)) = Some sid
        \<and> sessions (snd (create sid now name n m)) sid = Some (new_session sid now name n)
        \<and> (\<forall>i. i \<noteq> sid \<longrightarrow> sessions (snd (create sid now name n m)) i = sessions m i)
        \<and> (sid \<noteq> [] \<longrightarrow>
             getActive (snd (create sid now name n m)) = Some (new_session sid now name n)))"
  using create_fails_iff [of sid now name n m] create_conflict_error [of m x sid now name n]
    create_becomes_active [of m sid now name n]
  by (auto simp: create_succeeds new_session_def)

theorem create_conflict_iff_active_witness:
  "getActive busy_manager = Some (setStatus Running (new_session (js ''aaaaaaaa'') 1 (js ''tetris'') 3))
   \<and> create (js ''bbbbbbbb'') 2 (js ''pong'') 3 busy_manager
       = (Inl (SessionAlreadyActive (js ''tetris'') (js ''aaaaaaaa'')), busy_manager)
   \<and> getActive forge_race = None
   \<and> js ''cccccccc'' \<noteq> []
   \<and> fst (create (js ''cccccccc'') 3 (js ''snake'') 3 forge_race)
       = Inr (new_session (js ''cccccccc'') 3 (js ''snake'') 3)
   \<and> getActive (snd (create (js ''cccccccc'') 3 (js ''snake'') 3 forge_race))
       = Some (new_session (js ''cccccccc'') 3 (js ''snake'') 3)"
proof -
  have busy: "getActive busy_manager
      = Some (setStatus Running (new_session (js ''aaaaaaaa'') 1 (js ''tetris'') 3))"
    by code_simp
  have free: "getActive forge_race = None"
    by code_simp
  have sid: "js ''cccccccc'' \<noteq> []"
    by (simp add: js_def)
  have g: "gameName (setStatus Running (new_session (js ''aaaaaaaa'') 1 (js ''tetris'') 3)) = js ''tetris''"
     "s_id (setStatus Running (new_session (js ''aaaaaaaa'') 1 (js ''tetris'') 3)) = js ''aaaaaaaa''"
    by (simp_all add: setStatus_def new_session_def)
  show ?thesis
    using busy free sid g
      create_conflict_iff_active [of "js ''bbbbbbbb''" 2 "js ''pong''" 3 busy_manager
        "setStatus Running (new_session (js ''aaaaaaaa'') 1 (js ''tetris'') 3)"]
      create_conflict_iff_active [of "js ''cccccccc''" 3 "js ''snake''" 3 forge_race
        "setStatus Running (new_session (js ''aaaaaaaa'') 1 (js ''tetris'') 3)"]
    by simp
qed

text \<open>
  Claim C2 as stated fails: after the run \<open>forge_race\<close> the session \<open>aaaaaaaa\<close>
  exists and is scaffolding, not stopped, and \<open>create\<close> succeeds all the same.
\<close>

theorem create_ignores_inactive_session:
  "map_option s_status (sessions forge_race (js ''aaaaaaaa'')) = Some Scaffolding
   \<and> fst (create (js ''cccccccc'') 3 (js ''snake'') 3 forge_race)
       = Inr (new_session (js ''cccccccc'') 3 (js ''snake'') 3)"
  by code_simp

section \<open>Theorems: the session-creation endpoint\<close>








section \<open>Theorems: the watcher\<close>

subsection \<open>What a tick does to each field\<close>

lemma updateCurrentTasks_tasks:
  "currentTasks (state (updateCurrentTasks ob w)) = tick_tasks ob"
  by (simp add: tick_tasks_def updateCurrentTasks_def Let_def)

lemma updateCommits_agents: "agents (state (snd (updateCommits ob w))) = agents (state w)"
  by (simp add: updateCommits_def Let_def split: list.splits)

lemma updateCommits_commits:
  "commits (state (snd (updateCommits ob w))) =
     (if execGit (git_log ob) = [] then commits (state w)
      else parse_log (execGit (git_log ob)))"
  by (simp add: updateCommits_def Let_def split: list.splits)

lemma poll_snd:
  "snd (poll ob w) =
     updateAgentStatus (updateSpecModules ob (updateCodeStats ob
       (updateCompletedTasks ob (updateCurrentTasks ob (snd (updateCommits ob w))))))"
  by (simp add: poll_def Let_def split: prod.splits)

lemma poll_fst:
  "fst (poll ob w) = fst (updateCommits ob w) @ [State (state (snd (poll ob w)))]"
  by (simp add: poll_def Let_def getState_def split: prod.splits)

lemma poll_currentTasks: "currentTasks (state (snd (poll ob w))) = tick_tasks ob"
  by (simp add: poll_snd updateAgentStatus_def updateSpecModules_def updateCodeStats_def
      updateCompletedTasks_def updateCurrentTasks_def tick_tasks_def Let_def)

lemma poll_commits:
  "commits (state (snd (poll ob w))) =
     (if execGit (git_log ob) = [] then commits (state w)
      else parse_log (execGit (git_log ob)))"
  by (simp add: poll_snd updateAgentStatus_def updateSpecModules_def updateCodeStats_def
      updateCompletedTasks_def updateCurrentTasks_def Let_def updateCommits_commits)

lemma poll_agents:
  "agents (state (snd (poll ob w))) =
     mark_idle (set (map agentId (tick_tasks ob)))
       (foldl (count_commit (set (map agentId (tick_tasks ob))))
          (foldl mark_working (agents (state w)) (tick_tasks ob))
          (commits (state (snd (poll ob w)))))"
  by (simp add: poll_snd updateAgentStatus_def updateSpecModules_def updateCodeStats_def
      updateCompletedTasks_def updateCurrentTasks_def tick_tasks_def Let_def updateCommits_commits
      updateCommits_agents)


subsection \<open>The three loops of updateAgentStatus\<close>

lemma mark_working_other: "agentId t \<noteq> k \<Longrightarrow> mark_working ags t k = ags k"
  by (simp add: mark_working_def split: option.splits)

lemma mark_working_self:
  "\<exists>a. mark_working ags t (agentId t) = Some a \<and> a_status a = Working
       \<and> currentTask a = Some (description t)"
  by (simp add: mark_working_def split: option.splits)

lemma working_unreferenced:
  "k \<notin> set (map agentId ts) \<Longrightarrow> foldl mark_working ags ts k = ags k"
  by (induction ts arbitrary: ags) (auto simp: mark_working_other)

lemma working_referenced:
  "k \<in> set (map agentId ts) \<Longrightarrow>
     \<exists>a. foldl mark_working ags ts k = Some a \<and> a_status a = Working
       \<and> currentTask a = Some (description (last (filter (\<lambda>t. agentId t = k) ts)))"
proof (induction ts arbitrary: ags rule: rev_induct)
  case Nil
  then show ?case by simp
next
  case (snoc t ts)
  show ?case
  proof (cases "agentId t = k")
    case True
    then show ?thesis
      using mark_working_self [of "foldl mark_working ags ts" t] by auto
  next
    case False
    then have "k \<in> set (map agentId ts)" using snoc.prems by auto
    then show ?thesis
      using snoc.IH [of ags] False by (simp add: mark_working_other)
  qed
qed

lemma count_commit_keeps:
  "ags k = Some a \<Longrightarrow>
     \<exists>b. count_commit act ags c k = Some b \<and> a_status b = a_status a
       \<and> currentTask b = currentTask a"
  by (auto simp: count_commit_def Let_def split: option.splits)

lemma counting_keeps:
  "ags k = Some a \<Longrightarrow>
     \<exists>b. foldl (count_commit act) ags cs k = Some b \<and> a_status b = a_status a
       \<and> currentTask b = currentTask a"
proof (induction cs arbitrary: ags a)
  case Nil
  then show ?case by simp
next
  case (Cons c cs)
  from count_commit_keeps [of ags k a act c] Cons.prems
  obtain b where b: "count_commit act ags c k = Some b" "a_status b = a_status a"
    "currentTask b = currentTask a" by blast
  from Cons.IH [of "count_commit act ags c" b] b show ?case by simp
qed

lemma mark_idle_dom: "dom (mark_idle act ags) = dom ags"
  by (auto simp: mark_idle_def split: option.splits if_splits)

lemma count_commit_dom: "dom ags \<subseteq> dom (count_commit act ags c)"
  by (auto simp: count_commit_def Let_def split: option.splits)

lemma counting_dom: "dom ags \<subseteq> dom (foldl (count_commit act) ags cs)"
proof (induction cs arbitrary: ags)
  case Nil
  then show ?case by simp
next
  case (Cons c cs)
  have "dom ags \<subseteq> dom (count_commit act ags c)" by (rule count_commit_dom)
  also have "\<dots> \<subseteq> dom (foldl (count_commit act) (count_commit act ags c) cs)"
    by (rule Cons.IH)
  finally show ?case by simp
qed

lemma mark_working_dom: "dom ags \<subseteq> dom (mark_working ags t)"
  by (auto simp: mark_working_def split: option.splits)

lemma working_dom: "dom ags \<subseteq> dom (foldl mark_working ags ts)"
proof (induction ts arbitrary: ags)
  case Nil
  then show ?case by simp
next
  case (Cons t ts)
  have "dom ags \<subseteq> dom (mark_working ags t)" by (rule mark_working_dom)
  also have "\<dots> \<subseteq> dom (foldl mark_working (mark_working ags t) ts)" by (rule Cons.IH)
  finally show ?case by simp
qed

lemma poll_dom: "dom (agents (state w)) \<subseteq> dom (agents (state (snd (poll ob w))))"
proof -
  have "dom (agents (state w)) \<subseteq> dom (foldl mark_working (agents (state w)) (tick_tasks ob))"
    by (rule working_dom)
  also have "\<dots> \<subseteq> dom (foldl (count_commit (set (map agentId (tick_tasks ob))))
          (foldl mark_working (agents (state w)) (tick_tasks ob))
          (commits (state (snd (poll ob w)))))"
    by (rule counting_dom)
  finally show ?thesis
    by (subst poll_agents) (simp add: mark_idle_dom)
qed

lemma polls_dom: "dom (agents (state w)) \<subseteq> dom (agents (state (snd (polls obs w))))"
proof (induction obs arbitrary: w)
  case Nil
  then show ?case by simp
next
  case (Cons ob obs)
  have "dom (agents (state w)) \<subseteq> dom (agents (state (snd (poll ob w))))" by (rule poll_dom)
  also have "\<dots> \<subseteq> dom (agents (state (snd (polls obs (snd (poll ob w))))))" by (rule Cons.IH)
  finally show ?case by (simp add: split_def Let_def)
qed

lemma poll_working:
  assumes "k \<in> set (map agentId (tick_tasks ob))"
  shows "\<exists>a. agents (state (snd (poll ob w))) k = Some a \<and> a_status a = Working
       \<and> currentTask a = Some (description (last (filter (\<lambda>t. agentId t = k) (tick_tasks ob))))"
proof -
  from working_referenced [OF assms, of "agents (state w)"]
  obtain a where a: "foldl mark_working (agents (state w)) (tick_tasks ob) k = Some a"
    "a_status a = Working"
    "currentTask a = Some (description (last (filter (\<lambda>t. agentId t = k) (tick_tasks ob))))"
    by blast
  from counting_keeps [of "foldl mark_working (agents (state w)) (tick_tasks ob)" k a
      "set (map agentId (tick_tasks ob))" "commits (state (snd (poll ob w)))"] a(1)
  obtain b where b: "foldl (count_commit (set (map agentId (tick_tasks ob))))
          (foldl mark_working (agents (state w)) (tick_tasks ob))
          (commits (state (snd (poll ob w)))) k = Some b" "a_status b = a_status a"
    "currentTask b = currentTask a" by blast
  show ?thesis
    using assms a b by (subst poll_agents) (simp add: mark_idle_def)
qed

lemma poll_idle:
  assumes "agents (state w) k = Some a0" and "k \<notin> set (map agentId (tick_tasks ob))"
  shows "\<exists>a. agents (state (snd (poll ob w))) k = Some a \<and> a_status a = Idle
       \<and> currentTask a = None"
proof -
  have a: "foldl mark_working (agents (state w)) (tick_tasks ob) k = Some a0"
    using working_unreferenced [OF assms(2)] assms(1) by simp
  from counting_keeps [of "foldl mark_working (agents (state w)) (tick_tasks ob)" k a0
      "set (map agentId (tick_tasks ob))" "commits (state (snd (poll ob w)))"] a
  obtain b where b: "foldl (count_commit (set (map agentId (tick_tasks ob))))
          (foldl mark_working (agents (state w)) (tick_tasks ob))
          (commits (state (snd (poll ob w)))) k = Some b" by blast
  show ?thesis
    using assms(2) b by (subst poll_agents) (simp add: mark_idle_def)
qed

subsection \<open>Status and current task\<close>

text \<open>
  Claim C6, as amended. After a tick, a worker id that some active task record
  references is working, and its \<open>currentTask\<close> is the description of the last record
  of the listing that references it; when one record only references it, that is this
  record's description. A worker id the dictionary held before the tick and that no
  active record references is idle after it, with \<open>currentTask\<close> cleared.
\<close>

theorem agent_status_follows_tasks:
  "(k \<in> agentId ` set (currentTasks (state (snd (poll ob w)))) \<longrightarrow>
      (\<exists>a. agents (state (snd (poll ob w))) k = Some a \<and> a_status a = Working
         \<and> currentTask a =
             Some (description (last (filter (\<lambda>t. agentId t = k)
                                        (currentTasks (state (snd (poll ob w)))))))))
   \<and> (filter (\<lambda>t. agentId t = k) (currentTasks (state (snd (poll ob w)))) = [t] \<longrightarrow>
      (\<exists>a. agents (state (snd (poll ob w))) k = Some a \<and> a_status a = Working
         \<and> currentTask a = Some (description t)))
   \<and> (agents (state w) k \<noteq> None \<and> k \<notin> agentId ` set (currentTasks (state (snd (poll ob w)))) \<longrightarrow>
      (\<exists>a. agents (state (snd (poll ob w))) k = Some a \<and> a_status a = Idle
         \<and> currentTask a = None))"
proof -
  have sole: "k \<in> agentId ` set ts" if "filter (\<lambda>t. agentId t = k) ts = [t]" for ts
  proof -
    have "t \<in> set (filter (\<lambda>t. agentId t = k) ts)" using that by simp
    then show ?thesis by auto
  qed
  show ?thesis
    using poll_working [of k ob w] poll_idle [of w k _ ob] sole [of "tick_tasks ob"]
    by (auto simp: poll_currentTasks)
qed

theorem agent_status_follows_tasks_witness:
  "js ''2'' \<in> agentId ` set (currentTasks (state (snd (poll one_task new_watcher))))
   \<and> map_option a_status (agents (state (snd (poll one_task new_watcher))) (js ''2'')) = Some Working
   \<and> map_option currentTask (agents (state (snd (poll one_task new_watcher))) (js ''2''))
       = Some (Some (js ''implement scoring''))
   \<and> agents (state (snd (poll one_task new_watcher))) (js ''2'') \<noteq> None
   \<and> js ''2'' \<notin> agentId ` set (currentTasks (state (snd (poll quiet (snd (poll one_task new_watcher))))))
   \<and> map_option a_status (agents (state (snd (poll quiet (snd (poll one_task new_watcher))))) (js ''2''))
       = Some Idle
   \<and> map_option currentTask (agents (state (snd (poll quiet (snd (poll one_task new_watcher))))) (js ''2''))
       = Some None"
proof -
  have t1: "currentTasks (state (snd (poll one_task new_watcher)))
      = [\<lparr>t_file = js ''agent-2-1700000000000'', agentId = js ''2'',
          timestamp = Num 1700000000000, description = js ''implement scoring''\<rparr>]"
    by code_simp
  have t2: "currentTasks (state (snd (poll quiet (snd (poll one_task new_watcher))))) = []"
    by code_simp
  have known: "agents (state (snd (poll one_task new_watcher))) (js ''2'') \<noteq> None"
    by code_simp
  show ?thesis
    using t1 t2 known
      agent_status_follows_tasks [of "js ''2''" one_task new_watcher
        "\<lparr>t_file = js ''agent-2-1700000000000'', agentId = js ''2'',
          timestamp = Num 1700000000000, description = js ''implement scoring''\<rparr>"]
      agent_status_follows_tasks [of "js ''2''" quiet "snd (poll one_task new_watcher)"]
    by auto
qed

text \<open>
  Claim C6 as stated fails: two active records reference worker 1; the first one's
  description is not the worker's \<open>currentTask\<close>, the second one's is.
\<close>

theorem last_task_wins:
  "map (\<lambda>t. (agentId t, description t)) (currentTasks (state (snd (poll two_tasks new_watcher))))
     = [(js ''1'', js ''implement scoring''), (js ''1'', js ''draw the board'')]
   \<and> map_option currentTask (agents (state (snd (poll two_tasks new_watcher))) (js ''1''))
       = Some (Some (js ''draw the board''))"
  by code_simp

subsection \<open>The dictionary only grows\<close>

lemma reset_forgets: "reset ob w = poll ob new_watcher"
  by (cases w) (simp add: reset_def new_watcher_def)

text \<open>
  Claim C10. No tick, and no run of ticks, removes a worker id from the dictionary; a
  worker it held that no active record references is idle with \<open>currentTask\<close> cleared
  after the tick, whatever the commit window holds. The constructor gives the empty
  dictionary, and \<open>reset\<close> forgets the watcher's state: what it leaves is what a
  new watcher's first tick derives.
\<close>

theorem agents_never_removed:
  "dom (agents (state w)) \<subseteq> dom (agents (state (snd (poll ob w))))
   \<and> dom (agents (state w)) \<subseteq> dom (agents (state (snd (polls obs w))))
   \<and> (agents (state w) k \<noteq> None \<and> k \<notin> agentId ` set (currentTasks (state (snd (poll ob w)))) \<longrightarrow>
      (\<exists>a. agents (state (snd (poll ob w))) k = Some a \<and> a_status a = Idle
         \<and> currentTask a = None))
   \<and> reset ob w = poll ob new_watcher
   \<and> agents (state new_watcher) = Map.empty"
  using poll_dom [of w ob] polls_dom [of w obs] poll_idle [of w k _ ob] reset_forgets [of ob w]
  by (auto simp: poll_currentTasks new_watcher_def initial_state_def)

theorem agents_never_removed_witness:
  "agents (state (snd (poll one_task new_watcher))) (js ''2'') \<noteq> None
   \<and> js ''2'' \<notin> agentId ` set (currentTasks (state (snd (poll quiet (snd (poll one_task new_watcher))))))
   \<and> js ''2'' \<in> dom (agents (state (snd (poll quiet (snd (poll one_task new_watcher))))))
   \<and> js ''2'' \<in> dom (agents (state (snd (polls [quiet, quiet, quiet] (snd (poll one_task new_watcher))))))
   \<and> map_option a_status (agents (state (snd (poll quiet (snd (poll one_task new_watcher))))) (js ''2''))
       = Some Idle
   \<and> map_option currentTask (agents (state (snd (poll quiet (snd (poll one_task new_watcher))))) (js ''2''))
       = Some None"
proof -
  have known: "agents (state (snd (poll one_task new_watcher))) (js ''2'') \<noteq> None"
    by code_simp
  have t2: "currentTasks (state (snd (poll quiet (snd (poll one_task new_watcher))))) = []"
    by code_simp
  show ?thesis
    using known t2
      agents_never_removed [of "snd (poll one_task new_watcher)" quiet "[quiet, quiet, quiet]" "js ''2''"]
    by auto
qed

subsection \<open>The counters\<close>

lemma count_commit_count:
  "commit_count_of (count_commit act ags c) k =
     commit_count_of ags k + (if attributed c = Some k then 1 else 0)"
  by (auto simp: commit_count_of_def count_commit_def attributed_def Let_def
           split: option.splits)

lemma count_commit_tasks:
  "task_count_of (count_commit act ags c) k =
     task_count_of ags k + (if attributed c = Some k \<and> completes c then 1 else 0)"
  by (auto simp: task_count_of_def count_commit_def attributed_def completes_def Let_def
           split: option.splits)

lemma counting_count:
  "commit_count_of (foldl (count_commit act) ags cs) k =
     commit_count_of ags k + length (filter (\<lambda>c. attributed c = Some k) cs)"
  by (induction cs arbitrary: ags) (simp_all add: count_commit_count)

lemma counting_tasks:
  "task_count_of (foldl (count_commit act) ags cs) k =
     task_count_of ags k + length (filter (\<lambda>c. attributed c = Some k \<and> completes c) cs)"
  by (induction cs arbitrary: ags) (simp_all add: count_commit_tasks)

lemma mark_working_count:
  "commit_count_of (mark_working ags t) k = commit_count_of ags k"
  "task_count_of (mark_working ags t) k = task_count_of ags k"
  by (auto simp: commit_count_of_def task_count_of_def mark_working_def split: option.splits)

lemma working_count:
  "commit_count_of (foldl mark_working ags ts) k = commit_count_of ags k"
  "task_count_of (foldl mark_working ags ts) k = task_count_of ags k"
  by (induction ts arbitrary: ags) (simp_all add: mark_working_count)

lemma mark_idle_count:
  "commit_count_of (mark_idle act ags) k = commit_count_of ags k"
  "task_count_of (mark_idle act ags) k = task_count_of ags k"
  by (auto simp: commit_count_of_def task_count_of_def mark_idle_def split: option.splits)

lemma poll_adds_window:
  "commit_count_of (agents (state (snd (poll ob w)))) k =
     commit_count_of (agents (state w)) k
     + length (filter (\<lambda>c. attributed c = Some k) (commits (state (snd (poll ob w)))))"
  "task_count_of (agents (state (snd (poll ob w)))) k =
     task_count_of (agents (state w)) k
     + length (filter (\<lambda>c. attributed c = Some k \<and> completes c)
                (commits (state (snd (poll ob w)))))"
  by (subst poll_agents, simp add: mark_idle_count counting_count counting_tasks working_count)+

lemma polls_snd: "snd (polls (ob # obs) w) = snd (polls obs (snd (poll ob w)))"
  by (simp add: split_def Let_def)

lemma polls_nil: "snd (polls [] w) = w"
  by simp

lemma one_commit_window:
  "commits (state (snd (poll one_commit w))) =
     [\<lparr>hash = Some (js ''c0ffee''), author = Some (js ''agent-1''),
       message = Some (js ''scoring: '' @ done_marker), timeAgo = Some (js ''2 minutes ago'')\<rparr>]"
proof -
  have "execGit (git_log one_commit) \<noteq> []" by code_simp
  moreover have "parse_log (execGit (git_log one_commit)) =
     [\<lparr>hash = Some (js ''c0ffee''), author = Some (js ''agent-1''),
       message = Some (js ''scoring: '' @ done_marker), timeAgo = Some (js ''2 minutes ago'')\<rparr>]"
    by code_simp
  ultimately show ?thesis by (simp add: poll_commits)
qed

lemma one_commit_attributed:
  "attributed \<lparr>hash = Some (js ''c0ffee''), author = Some (js ''agent-1''),
       message = Some (js ''scoring: '' @ done_marker), timeAgo = Some (js ''2 minutes ago'')\<rparr>
     = Some (js ''1'')"
  "completes \<lparr>hash = Some (js ''c0ffee''), author = Some (js ''agent-1''),
       message = Some (js ''scoring: '' @ done_marker), timeAgo = Some (js ''2 minutes ago'')\<rparr>"
  by code_simp+

lemma fresh_counts:
  "commit_count_of (agents (state new_watcher)) k = 0"
  "task_count_of (agents (state new_watcher)) k = 0"
  by (simp_all add: commit_count_of_def task_count_of_def new_watcher_def initial_state_def)

text \<open>
  Claim C1 fails on the code. With one commit of worker 1 in the history, carrying the
  completion marker, the first tick gives the worker \<open>commitCount\<close> 1 and
  \<open>taskCount\<close> 1; a second tick over the same history gives 2 and 2. By
  \<open>poll_adds_window\<close> every tick adds the whole window again.
\<close>

theorem counters_grow_with_polling:
  "commit_count_of (agents (state (snd (polls [one_commit] new_watcher)))) (js ''1'') = 1
   \<and> task_count_of (agents (state (snd (polls [one_commit] new_watcher)))) (js ''1'') = 1
   \<and> commit_count_of (agents (state (snd (polls [one_commit, one_commit] new_watcher)))) (js ''1'') = 2
   \<and> task_count_of (agents (state (snd (polls [one_commit, one_commit] new_watcher)))) (js ''1'') = 2
   \<and> commits (state (snd (polls [one_commit, one_commit] new_watcher)))
       = commits (state (snd (polls [one_commit] new_watcher)))"
  by (simp del: polls.simps
        add: polls_snd polls_nil poll_adds_window one_commit_window one_commit_attributed
          fresh_counts)

subsection \<open>The new-commit event\<close>

lemma latest_hash_Some:
  "latest_hash cs = Some h \<Longrightarrow> \<exists>c rest. cs = c # rest \<and> hash c = Some h \<and> h \<noteq> []"
  by (auto simp: latest_hash_def split: list.splits option.splits if_splits)

lemma updateCommits_events:
  "fst (updateCommits ob w) =
     (case observed_head ob of
        None \<Rightarrow> []
      | Some h \<Rightarrow>
          if lastCommitHash w = Some h then []
          else (case parse_log (execGit (git_log ob)) of [] \<Rightarrow> [] | c # _ \<Rightarrow> [NewCommit c]))"
  by (auto simp: updateCommits_def observed_head_def Let_def
           split: option.splits list.splits)

lemma updateCommits_last:
  "lastCommitHash (snd (updateCommits ob w)) =
     (case observed_head ob of None \<Rightarrow> lastCommitHash w | Some h \<Rightarrow> Some h)"
  by (auto simp: updateCommits_def observed_head_def Let_def
           split: option.splits list.splits)

lemma poll_last: "lastCommitHash (snd (poll ob w)) = lastCommitHash (snd (updateCommits ob w))"
  by (simp add: poll_snd updateAgentStatus_def updateSpecModules_def updateCodeStats_def
      updateCompletedTasks_def updateCurrentTasks_def Let_def)

lemma observed_head_commit:
  assumes "observed_head ob = Some h"
  shows "\<exists>c rest. parse_log (execGit (git_log ob)) = c # rest
           \<and> commits (state (snd (poll ob w))) = c # rest \<and> hash c = Some h"
proof -
  from assms have ne: "execGit (git_log ob) \<noteq> []"
    and lh: "latest_hash (parse_log (execGit (git_log ob))) = Some h"
    by (auto simp: observed_head_def split: if_splits)
  from latest_hash_Some [OF lh] obtain c rest where
    "parse_log (execGit (git_log ob)) = c # rest" "hash c = Some h" by blast
  then show ?thesis using ne by (simp add: poll_commits)
qed

text \<open>
  Claim C5. A tick emits a \<open>newCommit\<close> event exactly when it observes a head hash
  and that hash differs from \<open>lastCommitHash\<close>, which is unset in a new watcher and
  after the tick is the hash last observed. The event carries the first commit of the
  list the tick stores, the one with that hash, and precedes the tick's snapshot. A tick
  whose head hash equals the last one, or that observes no head, emits the snapshot only.
\<close>

theorem new_commit_event_iff_head_changed:
  "(observed_head ob = Some h \<and> lastCommitHash w \<noteq> Some h \<longrightarrow>
      (\<exists>c rest. commits (state (snd (poll ob w))) = c # rest \<and> hash c = Some h
         \<and> fst (poll ob w) = [NewCommit c, State (state (snd (poll ob w)))]))
   \<and> (observed_head ob = Some h \<and> lastCommitHash w = Some h \<longrightarrow>
      fst (poll ob w) = [State (state (snd (poll ob w)))])
   \<and> (observed_head ob = None \<longrightarrow>
      fst (poll ob w) = [State (state (snd (poll ob w)))]
      \<and> lastCommitHash (snd (poll ob w)) = lastCommitHash w)
   \<and> (observed_head ob = Some h \<longrightarrow> lastCommitHash (snd (poll ob w)) = Some h)
   \<and> lastCommitHash new_watcher = None"
proof -
  have a: "observed_head ob = Some h \<Longrightarrow> lastCommitHash w \<noteq> Some h \<Longrightarrow>
      \<exists>c rest. commits (state (snd (poll ob w))) = c # rest \<and> hash c = Some h
         \<and> fst (poll ob w) = [NewCommit c, State (state (snd (poll ob w)))]"
  proof -
    assume h: "observed_head ob = Some h" and d: "lastCommitHash w \<noteq> Some h"
    from observed_head_commit [OF h, of w] obtain c rest where
      c: "parse_log (execGit (git_log ob)) = c # rest"
      "commits (state (snd (poll ob w))) = c # rest" "hash c = Some h" by blast
    have "fst (updateCommits ob w) = [NewCommit c]"
      using h d c(1) by (simp add: updateCommits_events)
    then have "fst (poll ob w) = [NewCommit c, State (state (snd (poll ob w)))]"
      by (simp add: poll_fst)
    with c show ?thesis by blast
  qed
  have b: "observed_head ob = Some h \<Longrightarrow> lastCommitHash w = Some h \<Longrightarrow>
      fst (poll ob w) = [State (state (snd (poll ob w)))]"
    by (simp add: poll_fst updateCommits_events)
  have c: "observed_head ob = None \<Longrightarrow> fst (poll ob w) = [State (state (snd (poll ob w)))]
      \<and> lastCommitHash (snd (poll ob w)) = lastCommitHash w"
    by (simp add: poll_fst updateCommits_events poll_last updateCommits_last)
  have d: "observed_head ob = Some h \<Longrightarrow> lastCommitHash (snd (poll ob w)) = Some h"
    by (simp add: poll_last updateCommits_last)
  have e: "lastCommitHash new_watcher = None"
    by (simp add: new_watcher_def)
  from a b c d e show ?thesis by blast
qed

theorem new_commit_event_iff_head_changed_witness:
  "observed_head one_commit = Some (js ''c0ffee'')
   \<and> lastCommitHash new_watcher \<noteq> Some (js ''c0ffee'')
   \<and> (\<exists>c rest. commits (state (snd (poll one_commit new_watcher))) = c # rest
         \<and> hash c = Some (js ''c0ffee'')
         \<and> fst (poll one_commit new_watcher)
             = [NewCommit c, State (state (snd (poll one_commit new_watcher)))])
   \<and> lastCommitHash (snd (poll one_commit new_watcher)) = Some (js ''c0ffee'')
   \<and> fst (poll one_commit (snd (poll one_commit new_watcher)))
       = [State (state (snd (poll one_commit (snd (poll one_commit new_watcher)))))]
   \<and> observed_head quiet = None
   \<and> fst (poll quiet new_watcher) = [State (state (snd (poll quiet new_watcher)))]"
proof -
  have h: "observed_head one_commit = Some (js ''c0ffee'')" by code_simp
  have q: "observed_head quiet = None" by code_simp
  have n: "lastCommitHash new_watcher \<noteq> Some (js ''c0ffee'')"
    by (simp add: new_watcher_def)
  have first: "lastCommitHash (snd (poll one_commit new_watcher)) = Some (js ''c0ffee'')"
    using h new_commit_event_iff_head_changed [of one_commit "js ''c0ffee''" new_watcher]
    by simp
  show ?thesis
    using h q n first
      new_commit_event_iff_head_changed [of one_commit "js ''c0ffee''" new_watcher]
      new_commit_event_iff_head_changed [of one_commit "js ''c0ffee''"
        "snd (poll one_commit new_watcher)"]
      new_commit_event_iff_head_changed [of quiet "js ''c0ffee''" new_watcher]
    by simp
qed

subsection \<open>The snapshot\<close>









section \<open>Theorems: the worker loop\<close>












section \<open>Theorems: the task ledger\<close>

subsection \<open>The file-name pattern\<close>

















subsection \<open>The derived records\<close>














end
